theory Spec2Isabelle
  imports Complex_Main
begin

unbundle bit_operations_syntax

section \<open>Pixel values\<close>

text \<open>
  The notebooks compute on xarray/numpy arrays. An integer band (a reflectance band or
  the quality band) holds integers; every array produced by \<^verbatim>\<open>where(..., other=np.nan)\<close>
  or by arithmetic with a Python float holds IEEE-754 values. A floating value is
  modelled by \<open>fl\<close>: a finite number, one of the two infinities, or not-a-number, which
  is the "no value" of the specification. The special values follow IEEE-754 (NaN
  propagates, a nonzero number divided by zero is an infinity, \<open>0/0\<close> and
  \<open>inf - inf\<close> are NaN, every comparison with NaN is false). Finite arithmetic is exact
  arithmetic on \<open>real\<close>: rounding, overflow to infinity and the sign of zero are not
  modelled.
\<close>

datatype fl = Fin real | PInf | MInf | NaN

fun isnan :: "fl \<Rightarrow> bool" where
  "isnan NaN = True"
| "isnan _ = False"

fun fneg :: "fl \<Rightarrow> fl" where
  "fneg (Fin a) = Fin (- a)"
| "fneg PInf = MInf"
| "fneg MInf = PInf"
| "fneg NaN = NaN"

fun fadd :: "fl \<Rightarrow> fl \<Rightarrow> fl" where
  "fadd NaN _ = NaN"
| "fadd _ NaN = NaN"
| "fadd (Fin a) (Fin b) = Fin (a + b)"
| "fadd PInf MInf = NaN"
| "fadd MInf PInf = NaN"
| "fadd PInf _ = PInf"
| "fadd MInf _ = MInf"
| "fadd (Fin a) PInf = PInf"
| "fadd (Fin a) MInf = MInf"

definition fsub :: "fl \<Rightarrow> fl \<Rightarrow> fl" where
  "fsub a b = fadd a (fneg b)"

text \<open>The sign of an infinite product or quotient: \<open>sgn_inf True\<close> is \<open>+inf\<close>.\<close>

definition sgn_inf :: "bool \<Rightarrow> fl" where
  "sgn_inf pos = (if pos then PInf else MInf)"

fun fmul :: "fl \<Rightarrow> fl \<Rightarrow> fl" where
  "fmul NaN _ = NaN"
| "fmul _ NaN = NaN"
| "fmul (Fin a) (Fin b) = Fin (a * b)"
| "fmul PInf PInf = PInf"
| "fmul MInf MInf = PInf"
| "fmul PInf MInf = MInf"
| "fmul MInf PInf = MInf"
| "fmul (Fin a) PInf = (if a = 0 then NaN else sgn_inf (0 < a))"
| "fmul (Fin a) MInf = (if a = 0 then NaN else sgn_inf (a < 0))"
| "fmul PInf (Fin b) = (if b = 0 then NaN else sgn_inf (0 < b))"
| "fmul MInf (Fin b) = (if b = 0 then NaN else sgn_inf (b < 0))"

text \<open>
  Division never raises: numpy returns an infinity for \<open>x / 0\<close> with \<open>x \<noteq> 0\<close> and NaN
  for \<open>0 / 0\<close> (with a warning only). A zero divisor is taken as \<open>+0\<close>.
\<close>

fun fdiv :: "fl \<Rightarrow> fl \<Rightarrow> fl" where
  "fdiv NaN _ = NaN"
| "fdiv _ NaN = NaN"
| "fdiv (Fin a) (Fin b) =
     (if b = 0 then (if a = 0 then NaN else sgn_inf (0 < a)) else Fin (a / b))"
| "fdiv (Fin a) PInf = Fin 0"
| "fdiv (Fin a) MInf = Fin 0"
| "fdiv PInf (Fin b) = sgn_inf (0 \<le> b)"
| "fdiv MInf (Fin b) = sgn_inf (b < 0)"
| "fdiv PInf _ = NaN"
| "fdiv MInf _ = NaN"

text \<open>Comparisons: \<open>a > b\<close> and \<open>a == b\<close>; both are false when an operand is NaN.\<close>

fun fgt :: "fl \<Rightarrow> fl \<Rightarrow> bool" where
  "fgt NaN _ = False"
| "fgt _ NaN = False"
| "fgt (Fin a) (Fin b) = (b < a)"
| "fgt PInf PInf = False"
| "fgt PInf _ = True"
| "fgt MInf _ = False"
| "fgt (Fin a) MInf = True"
| "fgt (Fin a) PInf = False"

fun feq :: "fl \<Rightarrow> fl \<Rightarrow> bool" where
  "feq NaN _ = False"
| "feq _ NaN = False"
| "feq a b = (a = b)"

text \<open>\<^verbatim>\<open>band.clip(lo, hi)\<close> is \<open>minimum(maximum(band, lo), hi)\<close>; NaN stays NaN.\<close>

fun clip :: "real \<Rightarrow> real \<Rightarrow> fl \<Rightarrow> fl" where
  "clip lo hi NaN = NaN"
| "clip lo hi PInf = Fin hi"
| "clip lo hi MInf = Fin (min lo hi)"
| "clip lo hi (Fin a) = Fin (min (max a lo) hi)"

text \<open>\<^verbatim>\<open>x.where(cond, other)\<close> on one element: keep \<open>x\<close> where \<open>cond\<close> holds.\<close>

definition where_fl :: "bool \<Rightarrow> fl \<Rightarrow> fl \<Rightarrow> fl" where
  "where_fl cond x other = (if cond then x else other)"

section \<open>Datasets\<close>

text \<open>
  An xarray \<^verbatim>\<open>Dataset\<close> is a list of named variables over the same dimensions. An
  array is the list of its elements in storage order: the masking and index steps are
  element-wise, so the order of the dimensions plays no role in them. Attribute access
  \<^verbatim>\<open>data.name\<close> raises \<^verbatim>\<open>AttributeError\<close> when the dataset has no such variable.
\<close>

datatype error = AttributeError string | ValueError string

type_synonym 'a dataset = "(string \<times> 'a list) list"

definition get_var :: "'a dataset \<Rightarrow> string \<Rightarrow> error + 'a list" where
  "get_var data name =
     (case map_of data name of None \<Rightarrow> Inl (AttributeError name) | Some v \<Rightarrow> Inr v)"

text \<open>
  \<^verbatim>\<open>Dataset.where(cond, other=np.nan)\<close> is applied to every data variable: where \<open>cond\<close>
  holds the integer is kept (as a floating value), elsewhere the element is \<open>other\<close>.
  All variables of a dataset share their dimensions, so \<open>cond\<close> has the length of each.
\<close>

definition where_int :: "int list \<Rightarrow> bool list \<Rightarrow> fl \<Rightarrow> fl list" where
  "where_int vals cond other =
     map2 (\<lambda>v c. where_fl c (Fin (of_int v)) other) vals cond"

definition ds_where :: "int dataset \<Rightarrow> bool list \<Rightarrow> fl \<Rightarrow> fl dataset" where
  "ds_where data cond other = map (\<lambda>(name, vals). (name, where_int vals cond other)) data"

text \<open>
  \<^verbatim>\<open>Dataset.drop_vars(names)\<close> returns a new dataset without the named variables and
  raises \<^verbatim>\<open>ValueError\<close> when one of them is absent; the receiver is not modified.
\<close>

definition drop_vars :: "'a dataset \<Rightarrow> string list \<Rightarrow> error + 'a dataset" where
  "drop_vars data names =
     (case filter (\<lambda>n. n \<notin> fst ` set data) names of
        [] \<Rightarrow> Inr (filter (\<lambda>(n, vals). n \<notin> set names) data)
      | n # _ \<Rightarrow> Inl (ValueError n))"

section \<open>Quality Mask Builder\<close>

text \<open>
  HLS notebooks, \<^verbatim>\<open>apply_quality_mask\<close>:
  \<^verbatim>\<open>
    pq_bin = 0b00001110
    pq_mask = (data.fmask & pq_bin) != 0
    nodata_mask = data.fmask == data.fmask.odc.nodata
    mask = pq_mask | nodata_mask
    masked = data.where(~mask, other=np.nan)
    masked.drop_vars(["fmask"])
    return masked
  \<close>
  The nodata value comes from the band's metadata and is a parameter here. The
  variable \<open>mask\<close> of the function is \<open>quality_mask\<close>.
\<close>

definition pq_bin :: int where
  "pq_bin = 14"

definition quality_mask :: "int \<Rightarrow> int list \<Rightarrow> bool list" where
  "quality_mask nodata fmask =
     (let pq_mask = map (\<lambda>c. c AND pq_bin \<noteq> 0) fmask;
          nodata_mask = map (\<lambda>c. c = nodata) fmask
      in map2 (\<or>) pq_mask nodata_mask)"

definition apply_quality_mask :: "int \<Rightarrow> int dataset \<Rightarrow> error + fl dataset" where
  "apply_quality_mask nodata data =
     (case get_var data ''fmask'' of
        Inl e \<Rightarrow> Inl e
      | Inr fmask \<Rightarrow>
          (let mask = quality_mask nodata fmask;
               masked = ds_where data (map Not mask) NaN
           in case drop_vars masked [''fmask''] of
                Inl e \<Rightarrow> Inl e
              | Inr dropped \<Rightarrow> Inr masked))"

text \<open>
  Landsat notebook, \<^verbatim>\<open>mask_landsat_clouds\<close>:
  \<^verbatim>\<open>
    bitflags = 0b00011000
    cloud_mask = (data.qa_pixel & bitflags) != 0
    return data.where(~cloud_mask)
  \<close>
  There is no nodata test here; \<^verbatim>\<open>where\<close> without \<open>other\<close> fills with NaN.
\<close>

definition bitflags :: int where
  "bitflags = 24"

definition cloud_mask :: "int list \<Rightarrow> bool list" where
  "cloud_mask qa_pixel = map (\<lambda>c. c AND bitflags \<noteq> 0) qa_pixel"

definition mask_landsat_clouds :: "int dataset \<Rightarrow> error + fl dataset" where
  "mask_landsat_clouds data =
     (case get_var data ''qa_pixel'' of
        Inl e \<Rightarrow> Inl e
      | Inr qa_pixel \<Rightarrow> Inr (ds_where data (map Not (cloud_mask qa_pixel)) NaN))"

section \<open>Index Calculator\<close>

text \<open>Element-wise arithmetic on arrays of one shape, and with a Python scalar.\<close>

definition arr_add :: "fl list \<Rightarrow> fl list \<Rightarrow> fl list" where
  "arr_add xs ys = map2 fadd xs ys"

definition arr_sub :: "fl list \<Rightarrow> fl list \<Rightarrow> fl list" where
  "arr_sub xs ys = map2 fsub xs ys"

definition arr_div :: "fl list \<Rightarrow> fl list \<Rightarrow> fl list" where
  "arr_div xs ys = map2 fdiv xs ys"

definition scalar_mul :: "real \<Rightarrow> fl list \<Rightarrow> fl list" where
  "scalar_mul c xs = map (\<lambda>v. fmul (Fin c) v) xs"

definition add_scalar :: "fl list \<Rightarrow> real \<Rightarrow> fl list" where
  "add_scalar xs c = map (\<lambda>v. fadd v (Fin c)) xs"

text \<open>
  HLS notebooks, \<^verbatim>\<open>scale_offset\<close>:
  \<^verbatim>\<open>
    band = band * 0.0001
    band = band.where(band > 0, other=np.nan)
    return band
  \<close>
\<close>

definition scale_offset :: "fl list \<Rightarrow> fl list" where
  "scale_offset band =
     (let band = map (\<lambda>v. fmul v (Fin 0.0001)) band
      in map (\<lambda>v. where_fl (fgt v (Fin 0)) v NaN) band)"

text \<open>
  Landsat notebook, \<^verbatim>\<open>scale_offset\<close>:
  \<^verbatim>\<open>
    nodata = band == 0
    band = band * 0.0000275 + -0.2
    band = band.clip(0, 1)
    return band.where(~nodata, other=np.nan)
  \<close>
\<close>

definition scale_offset_landsat :: "fl list \<Rightarrow> fl list" where
  "scale_offset_landsat band =
     (let nodata = map (\<lambda>v. feq v (Fin 0)) band;
          band = map (\<lambda>v. fadd (fmul v (Fin 0.0000275)) (Fin (- 0.2))) band;
          band = map (clip 0 1) band
      in map2 (\<lambda>v n. where_fl (\<not> n) v NaN) band nodata)"

text \<open>
  Three-band index of the HLS notebook, \<^verbatim>\<open>calculate_evi\<close>:
  \<^verbatim>\<open>
    nir = scale_offset(data.nir)
    red = scale_offset(data.red)
    blue = scale_offset(data.blue)
    evi = 2.5 * ((nir - red) / (nir + 6*red - 7.5*blue + 1))
  \<close>
  The arithmetic is exact here, while the notebook computes in IEEE double precision: a
  denominator that is 0 in exact arithmetic is in general a very small nonzero number
  there, so this definition is not used to say at which pixels the denominator is zero,
  only how missing inputs propagate and what happens at one input where both agree.
\<close>

definition calculate_evi :: "fl dataset \<Rightarrow> error + fl list" where
  "calculate_evi data =
     (case get_var data ''nir'' of Inl e \<Rightarrow> Inl e | Inr data_nir \<Rightarrow>
      case get_var data ''red'' of Inl e \<Rightarrow> Inl e | Inr data_red \<Rightarrow>
      case get_var data ''blue'' of Inl e \<Rightarrow> Inl e | Inr data_blue \<Rightarrow>
        (let nir = scale_offset data_nir;
             red = scale_offset data_red;
             blue = scale_offset data_blue
         in Inr (scalar_mul 2.5
              (arr_div (arr_sub nir red)
                 (add_scalar
                    (arr_sub (arr_add nir (scalar_mul 6 red)) (scalar_mul 7.5 blue)) 1)))))"

text \<open>
  Two-band index of the HLS notebooks, \<^verbatim>\<open>calculate_evi2\<close>:
  \<^verbatim>\<open>
    nir = scale_offset(data.nir)
    red = scale_offset(data.red)
    evi2 = 2.4 * ((nir - red) / (nir + red + 1))
  \<close>
\<close>

definition calculate_evi2 :: "fl dataset \<Rightarrow> error + fl list" where
  "calculate_evi2 data =
     (case get_var data ''nir'' of Inl e \<Rightarrow> Inl e | Inr data_nir \<Rightarrow>
      case get_var data ''red'' of Inl e \<Rightarrow> Inl e | Inr data_red \<Rightarrow>
        (let nir = scale_offset data_nir;
             red = scale_offset data_red
         in Inr (scalar_mul 2.4
              (arr_div (arr_sub nir red) (add_scalar (arr_add nir red) 1)))))"

text \<open>The band of a dataset with one pixel per entry, as the masking step returns it.\<close>

definition raw_band :: "int list \<Rightarrow> fl list" where
  "raw_band vals = map (\<lambda>v. Fin (of_int v)) vals"

section \<open>Temporal Aggregator\<close>

text \<open>
  The reductions skip NaN (xarray's default \<open>skipna\<close> for floating data) and follow
  numpy: \<^verbatim>\<open>nanmax\<close> is \<^verbatim>\<open>np.fmax.reduce\<close>, where \<open>fmax\<close> returns the other
  operand when one is NaN; \<^verbatim>\<open>nanmedian\<close> removes the NaNs, sorts, and takes the mean
  of the middle element (odd count) or of the middle two (even count), NaN when nothing
  is left; \<^verbatim>\<open>nanmean\<close> replaces NaN by 0, sums, and divides by the number of values
  that are not NaN, so that the mean of no value is \<open>0/0\<close>. A reduction over no entry
  at all (an empty period) is NaN.
\<close>

definition fmax :: "fl \<Rightarrow> fl \<Rightarrow> fl" where
  "fmax a b = (if isnan a then b else if isnan b then a else if fgt b a then b else a)"

definition nanmax :: "fl list \<Rightarrow> fl" where
  "nanmax xs = (case xs of [] \<Rightarrow> NaN | x # r \<Rightarrow> foldl fmax x r)"

fun insert_sorted :: "fl \<Rightarrow> fl list \<Rightarrow> fl list" where
  "insert_sorted x [] = [x]"
| "insert_sorted x (y # ys) = (if fgt x y then y # insert_sorted x ys else x # y # ys)"

definition fsort :: "fl list \<Rightarrow> fl list" where
  "fsort xs = foldr insert_sorted xs []"

definition mean :: "fl list \<Rightarrow> fl" where
  "mean xs = fdiv (foldl fadd (Fin 0) xs) (Fin (real (length xs)))"

definition nanmedian :: "fl list \<Rightarrow> fl" where
  "nanmedian xs =
     (let v = filter (\<lambda>x. \<not> isnan x) xs
      in if v = [] then NaN
         else (let s = fsort v; n = length s; h = n div 2
               in if n mod 2 = 1 then mean (take 1 (drop h s))
                  else mean (take 2 (drop (h - 1) s))))"

definition nanmean :: "fl list \<Rightarrow> fl" where
  "nanmean xs =
     (let arr = map (\<lambda>x. if isnan x then Fin 0 else x) xs;
          cnt = length (filter (\<lambda>x. \<not> isnan x) xs);
          tot = foldl fadd (Fin 0) arr
      in fdiv tot (Fin (real cnt)))"

text \<open>
  A stack is an array with a time axis: one spatial raster (its pixels in storage
  order) per acquisition. A timestamp is represented by the calendar month it falls in,
  \<open>12 * year + month - 1\<close>: both grouping rules of the notebooks (\<^verbatim>\<open>"1MS"\<close>, month
  start, and \<^verbatim>\<open>"QS-DEC"\<close>/\<^verbatim>\<open>"QS-FEB"\<close>, quarter start anchored at a month) depend
  on the month only.
\<close>

type_synonym stack = "(int \<times> fl list) list"

definition month_of :: "int \<Rightarrow> nat" where
  "month_of t = nat (t mod 12) + 1"

definition month_start :: "int \<Rightarrow> int" where
  "month_start t = t"

definition quarter_start :: "nat \<Rightarrow> int \<Rightarrow> int" where
  "quarter_start anchor t = t - (t - (int anchor - 1)) mod 3"

text \<open>
  \<^verbatim>\<open>resample(time=rule)\<close> makes one group per period from the period of the earliest
  timestamp to the period of the latest, empty periods included, each labelled by its
  start. \<open>step\<close> is the length of a period in months.
\<close>

definition bin_labels :: "(int \<Rightarrow> int) \<Rightarrow> int \<Rightarrow> int list \<Rightarrow> int list" where
  "bin_labels start step stamps =
     (case stamps of
        [] \<Rightarrow> []
      | t # ts \<Rightarrow>
          (let lo = start (fold min ts t); hi = start (fold max ts t)
           in map (\<lambda>k. lo + step * int k) [0 ..< nat ((hi - lo) div step) + 1]))"

definition resample :: "(int \<Rightarrow> int) \<Rightarrow> int \<Rightarrow> stack \<Rightarrow> (int \<times> stack) list" where
  "resample start step data =
     map (\<lambda>b. (b, filter (\<lambda>(t, s). start t = b) data)) (bin_labels start step (map fst data))"

definition npix :: "stack \<Rightarrow> nat" where
  "npix data = (case data of [] \<Rightarrow> 0 | (t, s) # _ \<Rightarrow> length s)"

text \<open>The values of pixel \<open>i\<close> over the acquisitions of one group.\<close>

definition pixel_series :: "nat \<Rightarrow> stack \<Rightarrow> fl list" where
  "pixel_series i g = map (\<lambda>(t, s). s ! i) g"

definition reduce_group :: "(fl list \<Rightarrow> fl) \<Rightarrow> nat \<Rightarrow> stack \<Rightarrow> fl list" where
  "reduce_group stat n g = map (\<lambda>i. stat (pixel_series i g)) [0 ..< n]"

definition resample_reduce ::
  "(fl list \<Rightarrow> fl) \<Rightarrow> (int \<Rightarrow> int) \<Rightarrow> int \<Rightarrow> stack \<Rightarrow> stack" where
  "resample_reduce stat start step data =
     map (\<lambda>(b, g). (b, reduce_group stat (npix data) g)) (resample start step data)"

text \<open>
  \<^verbatim>\<open>max_values = masked.resample(time="1MS").max()\<close> and
  \<^verbatim>\<open>median = masked.resample(time="1MS").median()\<close>.
\<close>

definition max_values :: "stack \<Rightarrow> stack" where
  "max_values masked = resample_reduce nanmax month_start 1 masked"

definition median :: "stack \<Rightarrow> stack" where
  "median masked = resample_reduce nanmedian month_start 1 masked"

text \<open>
  \<^verbatim>\<open>x.sel(time=x.time.dt.month == m)\<close> keeps the entries of the time axis whose label
  falls in month \<open>m\<close>, in their order.
\<close>

definition sel_month :: "nat \<Rightarrow> stack \<Rightarrow> stack" where
  "sel_month m x = filter (\<lambda>(t, s). month_of t = m) x"

text \<open>
  \<^verbatim>\<open>
    quarters_max = data.resample(time="QS-FEB").max()
    feb_quarters_max = quarters_max.sel(time=quarters_max.time.dt.month == 2)
  \<close>
  and
  \<^verbatim>\<open>
    quarters_median = trend_data_masked.resample(time="QS-DEC").median()
    dec_quarters_median = quarters_median.sel(time=quarters_median.time.dt.month == 12)
  \<close>
\<close>

definition feb_quarters_max :: "stack \<Rightarrow> stack" where
  "feb_quarters_max data =
     (let quarters_max = resample_reduce nanmax (quarter_start 2) 3 data
      in sel_month 2 quarters_max)"

definition dec_quarters_median :: "stack \<Rightarrow> stack" where
  "dec_quarters_median trend_data_masked =
     (let quarters_median = resample_reduce nanmedian (quarter_start 12) 3 trend_data_masked
      in sel_month 12 quarters_median)"

text \<open>Area summary, \<^verbatim>\<open>x.mean(["x", "y"])\<close>: the mean over the pixels of each period.\<close>

definition area_mean :: "stack \<Rightarrow> (int \<times> fl) list" where
  "area_mean x = map (\<lambda>(t, s). (t, nanmean s)) x"

section \<open>Properties of the Quality Mask Builder\<close>

lemma quality_mask_length: "length (quality_mask nodata fmask) = length fmask"
  by (simp add: quality_mask_def)

lemma quality_mask_nth:
  "i < length fmask \<Longrightarrow>
     quality_mask nodata fmask ! i = (fmask ! i AND 14 \<noteq> 0 \<or> fmask ! i = nodata)"
  by (simp add: quality_mask_def pq_bin_def)

lemma cloud_mask_length: "length (cloud_mask qa) = length qa"
  by (simp add: cloud_mask_def)

lemma cloud_mask_nth: "i < length qa \<Longrightarrow> cloud_mask qa ! i = (qa ! i AND 24 \<noteq> 0)"
  by (simp add: cloud_mask_def bitflags_def)

lemma map_fst_ds_where: "map fst (ds_where data cond other) = map fst data"
  by (induction data) (auto simp: ds_where_def)

lemma drop_vars_present:
  "name \<in> fst ` set data \<Longrightarrow>
     drop_vars data [name] = Inr (filter (\<lambda>(n, vals). n \<noteq> name) data)"
  by (simp add: drop_vars_def)

lemma get_var_mem: "get_var data name = Inr v \<Longrightarrow> name \<in> fst ` set data"
  by (auto simp: get_var_def split: option.splits dest: map_of_SomeD intro: rev_image_eqI)

lemma apply_quality_mask_eq:
  assumes "get_var data ''fmask'' = Inr fmask"
  shows "apply_quality_mask nodata data
           = Inr (ds_where data (map Not (quality_mask nodata fmask)) NaN)"
proof -
  have "''fmask'' \<in> fst ` set data" using assms by (rule get_var_mem)
  then have "''fmask'' \<in> set (map fst (ds_where data (map Not (quality_mask nodata fmask)) NaN))"
    by (simp add: map_fst_ds_where)
  then have "''fmask'' \<in> fst ` set (ds_where data (map Not (quality_mask nodata fmask)) NaN)"
    by simp
  then show ?thesis
    using assms by (simp add: apply_quality_mask_def Let_def drop_vars_present)
qed

lemma where_int_nth:
  "length cond = length vals \<Longrightarrow> i < length vals \<Longrightarrow>
     where_int vals cond other ! i = (if cond ! i then Fin (of_int (vals ! i)) else other)"
  by (simp add: where_int_def where_fl_def)

lemma where_int_length:
  "length cond = length vals \<Longrightarrow> length (where_int vals cond other) = length vals"
  by (simp add: where_int_def)

lemma ds_where_nth:
  "k < length data \<Longrightarrow>
     ds_where data cond other ! k = (fst (data ! k), where_int (snd (data ! k)) cond other)"
  by (simp add: ds_where_def case_prod_beta)

lemma get_var_ds_where:
  "get_var data name = Inr v \<Longrightarrow>
     get_var (ds_where data cond other) name = Inr (where_int v cond other)"
  by (induction data) (auto simp: get_var_def ds_where_def split: option.splits if_splits)

text \<open>
  Claim C1 says that a mask element is true exactly when the quality code has a reject
  bit or equals the sentinel, for every reject bitmask and sentinel. The Landsat
  function makes no sentinel test: the code 1 (only the fill bit set) has no reject bit
  and is not masked, whatever value is taken as the sentinel.
\<close>

theorem quality_mask_landsat_no_sentinel_counterexample:
  "cloud_mask [1] ! 0 \<noteq> (((1::int) AND bitflags) \<noteq> 0 \<or> (1::int) = 1)"
  by (simp add: cloud_mask_def bitflags_def)

text \<open>
  Claim C1, as the code has it: in \<open>apply_quality_mask\<close> (HLS) the mask element of
  every quality code \<open>c\<close> is true exactly when \<open>c AND 0b00001110 \<noteq> 0\<close> or \<open>c\<close> is the nodata
  value; in \<open>mask_landsat_clouds\<close> it is true exactly when \<open>c AND 0b00011000 \<noteq> 0\<close>. The
  reject bitmask is a constant of each function. This holds for every element and every
  integer code, the mask has the shape of the quality band, and no error is returned
  when the quality band is present.
\<close>

theorem quality_mask_iff:
  "length (quality_mask s fmask) = length fmask \<and>
   (\<forall>i<length fmask. quality_mask s fmask ! i = (fmask ! i AND 14 \<noteq> 0 \<or> fmask ! i = s)) \<and>
   (get_var data ''fmask'' = Inr fmask \<longrightarrow> (\<exists>out. apply_quality_mask s data = Inr out)) \<and>
   length (cloud_mask qa_pixel) = length qa_pixel \<and>
   (\<forall>i<length qa_pixel. cloud_mask qa_pixel ! i = (qa_pixel ! i AND 24 \<noteq> 0)) \<and>
   (get_var data ''qa_pixel'' = Inr qa_pixel \<longrightarrow> (\<exists>out. mask_landsat_clouds data = Inr out))"
  by (simp add: quality_mask_length quality_mask_nth cloud_mask_length cloud_mask_nth
        apply_quality_mask_eq mask_landsat_clouds_def)

theorem quality_mask_iff_witness:
  "quality_mask 255 [0, 2, 255, 64] ! 2 = True \<and> quality_mask 255 [0, 2, 255, 64] ! 3 = False \<and>
   (\<exists>out. apply_quality_mask 255 [(''red'', [7, 8, 9, 10]), (''fmask'', [0, 2, 255, 64])] = Inr out) \<and>
   cloud_mask [1, 8, 16, 32] ! 0 = False \<and> cloud_mask [1, 8, 16, 32] ! 1 = True \<and>
   (\<exists>out. mask_landsat_clouds [(''red'', [7, 8, 9, 10]), (''qa_pixel'', [1, 8, 16, 32])] = Inr out)"
  using quality_mask_iff [of 255 "[0, 2, 255, 64]"
      "[(''red'', [7, 8, 9, 10]), (''fmask'', [0, 2, 255, 64])]" "[1, 8, 16, 32]"]
    quality_mask_iff [of 255 "[0, 2, 255, 64]"
      "[(''red'', [7, 8, 9, 10]), (''qa_pixel'', [1, 8, 16, 32])]" "[1, 8, 16, 32]"]
  by (simp add: get_var_def)

text \<open>
  Claim C9: \<open>apply_quality_mask\<close> applies the combined mask to every variable of the
  dataset, the quality band included; the returned dataset has the variables of the
  input, so it still contains \<open>fmask\<close> (the dataset without \<open>fmask\<close> that
  \<open>drop_vars\<close> computes is another value, which is discarded); every element that is
  not masked keeps its value.
\<close>

theorem apply_quality_mask_frame:
  assumes "get_var data ''fmask'' = Inr fmask"
    and "\<forall>k<length data. length (snd (data ! k)) = length fmask"
  shows "\<exists>out. apply_quality_mask nodata data = Inr out \<and>
           map fst out = map fst data \<and>
           get_var out ''fmask''
             = Inr (where_int fmask (map Not (quality_mask nodata fmask)) NaN) \<and>
           drop_vars out [''fmask''] \<noteq> Inr out \<and>
           (\<forall>k<length data. length (snd (out ! k)) = length fmask \<and>
              (\<forall>i<length fmask. snd (out ! k) ! i =
                 (if quality_mask nodata fmask ! i then NaN
                  else Fin (of_int (snd (data ! k) ! i)))))"
proof -
  let ?cond = "map Not (quality_mask nodata fmask)"
  let ?out = "ds_where data ?cond NaN"
  have len: "length ?cond = length fmask" by (simp add: quality_mask_length)
  have 1: "apply_quality_mask nodata data = Inr ?out"
    using assms(1) by (rule apply_quality_mask_eq)
  have 2: "map fst ?out = map fst data" by (rule map_fst_ds_where)
  have 3: "get_var ?out ''fmask'' = Inr (where_int fmask ?cond NaN)"
    using assms(1) by (rule get_var_ds_where)
  have mem: "''fmask'' \<in> fst ` set ?out"
    using 3 by (rule get_var_mem)
  have "(filter (\<lambda>(n, vals). n \<noteq> ''fmask'') ?out) \<noteq> ?out"
  proof
    assume "filter (\<lambda>(n, vals). n \<noteq> ''fmask'') ?out = ?out"
    then have "\<forall>x\<in>set ?out. (\<lambda>(n, vals). n \<noteq> ''fmask'') x"
      by (simp add: filter_id_conv)
    with mem show False by auto
  qed
  then have 4: "drop_vars ?out [''fmask''] \<noteq> Inr ?out"
    using mem by (simp add: drop_vars_present)
  have 5: "\<forall>k<length data. length (snd (?out ! k)) = length fmask \<and>
              (\<forall>i<length fmask. snd (?out ! k) ! i =
                 (if quality_mask nodata fmask ! i then NaN
                  else Fin (of_int (snd (data ! k) ! i))))"
  proof (intro allI impI conjI)
    fix k assume k: "k < length data"
    then have l: "length (snd (data ! k)) = length fmask" using assms(2) by simp
    show "length (snd (?out ! k)) = length fmask"
      using k l len by (simp add: ds_where_nth where_int_length)
    fix i assume i: "i < length fmask"
    show "snd (?out ! k) ! i =
            (if quality_mask nodata fmask ! i then NaN else Fin (of_int (snd (data ! k) ! i)))"
      using k l len i by (simp add: ds_where_nth where_int_nth quality_mask_length)
  qed
  from 1 2 3 4 5 show ?thesis by blast
qed

theorem apply_quality_mask_frame_witness:
  "\<exists>out. apply_quality_mask 255 [(''red'', [7, 8, 9]), (''fmask'', [0, 2, 255])] = Inr out \<and>
     map fst out = [''red'', ''fmask''] \<and>
     snd (out ! 0) ! 0 = Fin 7 \<and> snd (out ! 0) ! 1 = NaN \<and> snd (out ! 0) ! 2 = NaN \<and>
     snd (out ! 1) ! 0 = Fin 0 \<and> snd (out ! 1) ! 1 = NaN \<and> snd (out ! 1) ! 2 = NaN"
proof -
  let ?d = "[(''red'', [7, 8, 9]), (''fmask'', [0, 2, 255::int])]"
  have a: "get_var ?d ''fmask'' = Inr [0, 2, 255]" by (simp add: get_var_def)
  have b: "\<forall>k<length ?d. length (snd (?d ! k)) = length [0, 2, 255::int]"
    by (simp add: nth_Cons split: nat.splits)
  have m: "quality_mask 255 [0, 2, 255] = [False, True, True]"
    by (simp add: quality_mask_def pq_bin_def)
  from apply_quality_mask_frame [OF a b, of 255]
  obtain out where o: "apply_quality_mask 255 ?d = Inr out" "map fst out = map fst ?d"
    and e: "\<forall>k<length ?d. length (snd (out ! k)) = length [0, 2, 255::int] \<and>
              (\<forall>i<length [0, 2, 255::int]. snd (out ! k) ! i =
                 (if quality_mask 255 [0, 2, 255] ! i then NaN
                  else Fin (of_int (snd (?d ! k) ! i))))"
    by blast
  have "snd (out ! 0) ! 0 = Fin 7" "snd (out ! 0) ! 1 = NaN" "snd (out ! 0) ! 2 = NaN"
    "snd (out ! 1) ! 0 = Fin 0" "snd (out ! 1) ! 1 = NaN" "snd (out ! 1) ! 2 = NaN"
    using e m by auto
  with o show ?thesis by simp
qed

section \<open>Properties of the Index Calculator\<close>

lemma scale_offset_length: "length (scale_offset band) = length band"
  by (simp add: scale_offset_def)

lemma scale_offset_Fin:
  "i < length band \<Longrightarrow> band ! i = Fin a \<Longrightarrow>
     scale_offset band ! i = (if 0 < a then Fin (a * 0.0001) else NaN)"
  by (simp add: scale_offset_def where_fl_def)

lemma scale_offset_NaN:
  "i < length band \<Longrightarrow> band ! i = NaN \<Longrightarrow> scale_offset band ! i = NaN"
  by (simp add: scale_offset_def where_fl_def)

lemma scale_offset_landsat_length: "length (scale_offset_landsat band) = length band"
  by (simp add: scale_offset_landsat_def)

lemma scale_offset_landsat_Fin:
  "i < length band \<Longrightarrow> band ! i = Fin a \<Longrightarrow>
     scale_offset_landsat band ! i
       = (if a = 0 then NaN else Fin (min (max (a * 0.0000275 - 0.2) 0) 1))"
  by (simp add: scale_offset_landsat_def where_fl_def)

lemma scale_offset_landsat_NaN:
  "i < length band \<Longrightarrow> band ! i = NaN \<Longrightarrow> scale_offset_landsat band ! i = NaN"
  by (simp add: scale_offset_landsat_def where_fl_def)

lemma raw_band_nth: "i < length vals \<Longrightarrow> raw_band vals ! i = Fin (of_int (vals ! i))"
  by (simp add: raw_band_def)

lemma raw_band_length: "length (raw_band vals) = length vals"
  by (simp add: raw_band_def)

text \<open>The index at one pixel, from the scaled reflectances of that pixel.\<close>

lemma calculate_evi2_nth:
  assumes "get_var data ''nir'' = Inr ns" and "get_var data ''red'' = Inr rs"
    and "length rs = length ns"
  shows "\<exists>out. calculate_evi2 data = Inr out \<and> length out = length ns \<and>
           (\<forall>i<length ns. out ! i =
              fmul (Fin 2.4)
                (fdiv (fsub (scale_offset ns ! i) (scale_offset rs ! i))
                   (fadd (fadd (scale_offset ns ! i) (scale_offset rs ! i)) (Fin 1))))"
  using assms
  by (simp add: calculate_evi2_def Let_def scalar_mul_def arr_div_def arr_sub_def
      add_scalar_def arr_add_def scale_offset_length)

lemma calculate_evi_nth:
  assumes "get_var data ''nir'' = Inr ns" and "get_var data ''red'' = Inr rs"
    and "get_var data ''blue'' = Inr bs"
    and "length rs = length ns" and "length bs = length ns"
  shows "\<exists>out. calculate_evi data = Inr out \<and> length out = length ns \<and>
           (\<forall>i<length ns. out ! i =
              fmul (Fin 2.5)
                (fdiv (fsub (scale_offset ns ! i) (scale_offset rs ! i))
                   (fadd
                      (fsub (fadd (scale_offset ns ! i) (fmul (Fin 6) (scale_offset rs ! i)))
                         (fmul (Fin 7.5) (scale_offset bs ! i)))
                      (Fin 1))))"
  using assms
  by (simp add: calculate_evi_def Let_def scalar_mul_def arr_div_def arr_sub_def
      add_scalar_def arr_add_def scale_offset_length)

lemma evi2_ratio_bounds:
  fixes n r :: real
  assumes "0 < n" "0 < r"
  shows "- 1 < (n - r) / (n + r + 1)" "(n - r) / (n + r + 1) < 1"
proof -
  have d: "0 < n + r + 1" using assms by simp
  show "(n - r) / (n + r + 1) < 1" using d assms by (simp add: divide_less_eq)
  show "- 1 < (n - r) / (n + r + 1)" using d assms by (simp add: less_divide_eq)
qed

lemma evi2_px_Fin:
  "n + r + 1 \<noteq> 0 \<Longrightarrow>
     fmul (Fin c) (fdiv (fsub (Fin n) (Fin r)) (fadd (fadd (Fin n) (Fin r)) (Fin 1)))
       = Fin (c * ((n - r) / (n + r + 1)))"
  by (simp add: fsub_def)

lemma scaled_open_bounds:
  fixes q :: real
  assumes "- 1 < q" "q < 1"
  shows "- 2.4 < 2.4 * q" "2.4 * q < 2.4"
  using assms by simp_all

lemma evi2_ratio_strict_half:
  fixes n r :: real
  assumes "0 < n" "0 < r" "n \<le> 1" "r \<le> 1"
  shows "- (1 / 2) < (n - r) / (n + r + 1)" "(n - r) / (n + r + 1) < 1 / 2"
proof -
  have d: "0 < n + r + 1" using assms by simp
  show "(n - r) / (n + r + 1) < 1 / 2"
    unfolding pos_divide_less_eq [OF d] using assms by argo
  show "- (1 / 2) < (n - r) / (n + r + 1)"
    unfolding pos_less_divide_eq [OF d] using assms by argo
qed

lemma scaled_strict_half:
  fixes q :: real
  assumes "- (1 / 2) < q" "q < 1 / 2"
  shows "- 1.2 < 2.4 * q" "2.4 * q < 1.2"
  using assms by simp_all

lemma fmul_NaN_right [simp]: "fmul x NaN = NaN"
  by (cases x) simp_all

lemma fadd_NaN_right [simp]: "fadd x NaN = NaN"
  by (cases x) simp_all

lemma fdiv_NaN_right [simp]: "fdiv x NaN = NaN"
  by (cases x) simp_all

lemma fsub_NaN [simp]: "fsub NaN y = NaN" "fsub x NaN = NaN"
  by (simp_all add: fsub_def)

text \<open>
  Claim C3 says that every scaled value that is not positive becomes "no value" in every
  sensor variant, and the text of the Landsat notebook says of its function that it
  "sets any negative values to nan". The Landsat function does not: the raw value 1000
  scales to \<open>-0.1725\<close>, which is negative, and the function returns the number 0.
\<close>

theorem scale_offset_landsat_negative_clipped:
  "(1000::real) * 0.0000275 + - 0.2 < 0 \<and> scale_offset_landsat (raw_band [1000]) = [Fin 0]"
  by (simp add: scale_offset_landsat_def raw_band_def where_fl_def)

text \<open>
  Claim C10: the Landsat \<open>scale_offset\<close> treats the raw value 0 as nodata: for every
  element, raw 0 gives NaN, and every nonzero raw value gives
  \<open>raw * 0.0000275 - 0.2\<close> clamped into \<open>[0, 1]\<close>, so that a nonzero raw value with a
  negative scaled value gives 0 and not NaN.
\<close>

theorem scale_offset_landsat_raw:
  "length (scale_offset_landsat (raw_band vals)) = length vals \<and>
   (\<forall>i<length vals.
      (vals ! i = 0 \<longrightarrow> scale_offset_landsat (raw_band vals) ! i = NaN) \<and>
      (vals ! i \<noteq> 0 \<longrightarrow>
         (\<exists>v. scale_offset_landsat (raw_band vals) ! i = Fin v \<and>
              v = min (max (real_of_int (vals ! i) * 0.0000275 - 0.2) 0) 1 \<and>
              0 \<le> v \<and> v \<le> 1 \<and>
              (real_of_int (vals ! i) * 0.0000275 - 0.2 < 0 \<longrightarrow> v = 0))))"
proof (intro conjI allI impI)
  show "length (scale_offset_landsat (raw_band vals)) = length vals"
    by (simp add: scale_offset_landsat_length raw_band_length)
next
  fix i assume i: "i < length vals"
  then have r: "i < length (raw_band vals)" "raw_band vals ! i = Fin (real_of_int (vals ! i))"
    by (simp_all add: raw_band_length raw_band_nth)
  show "scale_offset_landsat (raw_band vals) ! i = NaN" if "vals ! i = 0"
    using scale_offset_landsat_Fin [OF r] that by simp
  show "\<exists>v. scale_offset_landsat (raw_band vals) ! i = Fin v \<and>
              v = min (max (real_of_int (vals ! i) * 0.0000275 - 0.2) 0) 1 \<and>
              0 \<le> v \<and> v \<le> 1 \<and>
              (real_of_int (vals ! i) * 0.0000275 - 0.2 < 0 \<longrightarrow> v = 0)"
    if "vals ! i \<noteq> 0"
    using scale_offset_landsat_Fin [OF r] that by (simp add: max_def min_def)
qed

theorem scale_offset_landsat_raw_witness:
  "scale_offset_landsat (raw_band [0, 1, 20000, 65535]) ! 0 = NaN \<and>
   scale_offset_landsat (raw_band [0, 1, 20000, 65535]) ! 1 = Fin 0 \<and>
   scale_offset_landsat (raw_band [0, 1, 20000, 65535]) ! 2 = Fin 0.35 \<and>
   scale_offset_landsat (raw_band [0, 1, 20000, 65535]) ! 3 = Fin 1"
  using scale_offset_landsat_raw [of "[0, 1, 20000, 65535]"]
  by (simp add: All_less_Suc2 eval_nat_numeral)

text \<open>
  Claim C8: when the scaled near-infrared and red reflectances of a pixel are valid and
  equal, the two-band index of the HLS notebook is the number 0 at that pixel, not NaN.
  The band values are finite numbers, as every value loaded from an integer band is.
\<close>

theorem calculate_evi2_equal_bands_zero:
  assumes "get_var data ''nir'' = Inr ns" and "get_var data ''red'' = Inr rs"
    and "length rs = length ns" and "i < length ns"
    and "ns ! i = Fin a" and "rs ! i = Fin b"
    and "scale_offset ns ! i = scale_offset rs ! i"
    and "scale_offset ns ! i \<noteq> NaN"
  shows "\<exists>out. calculate_evi2 data = Inr out \<and> length out = length ns \<and> out ! i = Fin 0"
proof -
  have i': "i < length rs" using assms(3,4) by simp
  have n: "scale_offset ns ! i = (if 0 < a then Fin (a * 0.0001) else NaN)"
    using assms(4,5) by (rule scale_offset_Fin)
  have r: "scale_offset rs ! i = (if 0 < b then Fin (b * 0.0001) else NaN)"
    using i' assms(6) by (rule scale_offset_Fin)
  have a: "0 < a" using n assms(8) by (auto split: if_splits)
  then have b: "0 < b" using n r assms(7,8) by (auto split: if_splits)
  have ab: "a = b" using n r a b assms(7) by simp
  from calculate_evi2_nth [OF assms(1-3)] obtain out
    where o: "calculate_evi2 data = Inr out" "length out = length ns"
      and e: "\<forall>i<length ns. out ! i =
              fmul (Fin 2.4)
                (fdiv (fsub (scale_offset ns ! i) (scale_offset rs ! i))
                   (fadd (fadd (scale_offset ns ! i) (scale_offset rs ! i)) (Fin 1)))"
    by blast
  have "out ! i = Fin 0"
    using e assms(4) n r a b ab by (simp add: fsub_def)
  with o show ?thesis by simp
qed

theorem calculate_evi2_equal_bands_zero_witness:
  "\<exists>out. calculate_evi2 [(''nir'', raw_band [3000, 1500]), (''red'', raw_band [1000, 1500])]
           = Inr out \<and> length out = Suc (Suc 0) \<and> out ! 1 = Fin 0"
proof -
  let ?d = "[(''nir'', raw_band [3000, 1500]), (''red'', raw_band [1000, 1500])]"
  have 1: "get_var ?d ''nir'' = Inr (raw_band [3000, 1500])"
    and 2: "get_var ?d ''red'' = Inr (raw_band [1000, 1500])"
    by (simp_all add: get_var_def)
  have 3: "length (raw_band [1000, 1500]) = length (raw_band [3000, 1500])"
    and 4: "1 < length (raw_band [3000, 1500])"
    and 5: "raw_band [3000, 1500] ! 1 = Fin 1500"
    and 6: "raw_band [1000, 1500] ! 1 = Fin 1500"
    by (simp_all add: raw_band_def)
  have 7: "scale_offset (raw_band [3000, 1500]) ! 1 = scale_offset (raw_band [1000, 1500]) ! 1"
    and 8: "scale_offset (raw_band [3000, 1500]) ! 1 \<noteq> NaN"
    by (simp_all add: raw_band_def scale_offset_def where_fl_def)
  show ?thesis
    using calculate_evi2_equal_bands_zero [OF 1 2 3 4 5 6 7 8] by (simp add: raw_band_def)
qed

text \<open>
  Claim C2 says that the index of valid reflectances lies in \<open>[-1, 1]\<close>. With raw values
  10000 and 100 the reflectances are 1 and 0.01, both valid and within the sensor range,
  and the two-band index is \<open>396/335\<close>, about 1.18.
\<close>

theorem calculate_evi2_exceeds_one_counterexample:
  "scale_offset (raw_band [10000]) = [Fin 1] \<and> scale_offset (raw_band [100]) = [Fin 0.01] \<and>
   calculate_evi2 [(''nir'', raw_band [10000]), (''red'', raw_band [100])]
     = Inr [Fin (396 / 335)] \<and> (1::real) < 396 / 335"
  by (simp add: calculate_evi2_def get_var_def raw_band_def scale_offset_def where_fl_def
      scalar_mul_def arr_div_def arr_sub_def add_scalar_def arr_add_def fsub_def)

text \<open>
  Claim C2, as the code has it: for raw integer band values whose scaled reflectances
  are valid, the two-band index of the HLS notebooks is a finite number; it lies
  strictly between \<open>-2.4\<close> and \<open>2.4\<close> for the values of a 16-bit band (up to 65535), and
  strictly between \<open>-1.2\<close> and \<open>1.2\<close> when both reflectances are within the sensor range
  (raw values up to 10000, reflectance up to 1). Nothing is stated for the three-band
  form. Both bounds are proved on exact arithmetic and are missed by a margin there
  (about \<open>0.3\<close> and \<open>0.00018\<close>) that rounding in single or double precision does not
  reach.
\<close>

theorem calculate_evi2_bounds:
  assumes "get_var data ''nir'' = Inr ns" and "get_var data ''red'' = Inr rs"
    and "length rs = length ns" and "i < length ns"
    and "ns ! i = Fin (real_of_int n)" and "rs ! i = Fin (real_of_int r)"
    and "scale_offset ns ! i \<noteq> NaN" and "scale_offset rs ! i \<noteq> NaN"
  shows "\<exists>out v. calculate_evi2 data = Inr out \<and> out ! i = Fin v \<and>
           (n \<le> 65535 \<and> r \<le> 65535 \<longrightarrow> - 2.4 < v \<and> v < 2.4) \<and>
           (n \<le> 10000 \<and> r \<le> 10000 \<longrightarrow> - 1.2 < v \<and> v < 1.2)"
proof -
  have i': "i < length rs" using assms(3,4) by simp
  have sn: "scale_offset ns ! i = (if 0 < real_of_int n then Fin (real_of_int n * 0.0001) else NaN)"
    using assms(4,5) by (rule scale_offset_Fin)
  have sr: "scale_offset rs ! i = (if 0 < real_of_int r then Fin (real_of_int r * 0.0001) else NaN)"
    using i' assms(6) by (rule scale_offset_Fin)
  have n: "0 < real_of_int n" using sn assms(7) by (auto split: if_splits)
  have r: "0 < real_of_int r" using sr assms(8) by (auto split: if_splits)
  define x where "x = real_of_int n * 0.0001"
  define y where "y = real_of_int r * 0.0001"
  have x: "0 < x" and y: "0 < y" using n r by (simp_all add: x_def y_def)
  have sx: "scale_offset ns ! i = Fin x" and sy: "scale_offset rs ! i = Fin y"
    using sn sr n r by (simp_all add: x_def y_def)
  from calculate_evi2_nth [OF assms(1-3)] obtain out
    where o: "calculate_evi2 data = Inr out"
      and e: "\<forall>i<length ns. out ! i =
              fmul (Fin 2.4)
                (fdiv (fsub (scale_offset ns ! i) (scale_offset rs ! i))
                   (fadd (fadd (scale_offset ns ! i) (scale_offset rs ! i)) (Fin 1)))"
    by blast
  have nz: "x + y + 1 \<noteq> 0" using x y by simp
  have v: "out ! i = Fin (2.4 * ((x - y) / (x + y + 1)))"
    using e assms(4) sx sy evi2_px_Fin [OF nz, of "2.4"] by simp
  have b1: "- 2.4 < 2.4 * ((x - y) / (x + y + 1)) \<and> 2.4 * ((x - y) / (x + y + 1)) < 2.4"
    using evi2_ratio_bounds [OF x y] by (intro conjI scaled_open_bounds)
  have b2: "- 1.2 < 2.4 * ((x - y) / (x + y + 1)) \<and> 2.4 * ((x - y) / (x + y + 1)) < 1.2"
    if "n \<le> 10000 \<and> r \<le> 10000"
  proof -
    have "real_of_int n \<le> 10000" "real_of_int r \<le> 10000" using that by simp_all
    then have "x \<le> 1" "y \<le> 1" by (simp_all add: x_def y_def)
    from evi2_ratio_strict_half [OF x y this] show ?thesis
      by (intro conjI scaled_strict_half)
  qed
  from o v b1 b2 show ?thesis by blast
qed

theorem calculate_evi2_bounds_witness:
  "\<exists>out v. calculate_evi2 [(''nir'', raw_band [3000]), (''red'', raw_band [1000])] = Inr out \<and>
      out ! 0 = Fin v \<and> - 2.4 < v \<and> v < 2.4 \<and> - 1.2 < v \<and> v < 1.2"
proof -
  let ?d = "[(''nir'', raw_band [3000]), (''red'', raw_band [1000])]"
  have 1: "get_var ?d ''nir'' = Inr (raw_band [3000])"
    and 2: "get_var ?d ''red'' = Inr (raw_band [1000])"
    by (simp_all add: get_var_def)
  have 3: "length (raw_band [1000]) = length (raw_band [3000])"
    and 4: "0 < length (raw_band [3000])"
    and 5: "raw_band [3000] ! 0 = Fin (real_of_int 3000)"
    and 6: "raw_band [1000] ! 0 = Fin (real_of_int 1000)"
    by (simp_all add: raw_band_def)
  have 7: "scale_offset (raw_band [3000]) ! 0 \<noteq> NaN"
    and 8: "scale_offset (raw_band [1000]) ! 0 \<noteq> NaN"
    by (simp_all add: raw_band_def scale_offset_def where_fl_def)
  show ?thesis
    using calculate_evi2_bounds [OF 1 2 3 4 5 6 7 8] by simp
qed

text \<open>
  Claim C4 says that a zero denominator gives "no value". With raw values 5000, 2500 and
  4000 the reflectances are 0.5, 0.25 and 0.4, the three-band denominator
  \<open>0.5 + 6 * 0.25 - 7.5 * 0.4 + 1\<close> is 0, and the index is \<open>+inf\<close>, which is not NaN.
\<close>

theorem calculate_evi_zero_denominator_counterexample:
  "scale_offset (raw_band [5000]) = [Fin 0.5] \<and>
   scale_offset (raw_band [2500]) = [Fin 0.25] \<and>
   scale_offset (raw_band [4000]) = [Fin 0.4] \<and>
   fadd (fsub (fadd (Fin 0.5) (fmul (Fin 6) (Fin 0.25))) (fmul (Fin 7.5) (Fin 0.4))) (Fin 1)
     = Fin 0 \<and>
   calculate_evi
     [(''nir'', raw_band [5000]), (''red'', raw_band [2500]), (''blue'', raw_band [4000])]
     = Inr [PInf]"
  by (simp add: calculate_evi_def get_var_def raw_band_def scale_offset_def where_fl_def
      scalar_mul_def arr_div_def arr_sub_def add_scalar_def arr_add_def fsub_def sgn_inf_def)

text \<open>
  Claim C4, as the code has it: neither index function returns an error when its bands
  are present, and wherever a scaled input is NaN the index is NaN, in the two-band and
  in the three-band form. In the two-band form the denominator \<open>nir + red + 1\<close> of valid
  inputs is greater than 1, so it is never zero and the index is a finite number.
  Nothing is stated for a zero denominator of the three-band form.
\<close>

theorem calculate_evi_missing:
  "(get_var data ''nir'' = Inr ns \<and> get_var data ''red'' = Inr rs \<and> length rs = length ns
    \<longrightarrow> (\<exists>out. calculate_evi2 data = Inr out \<and> length out = length ns \<and>
          (\<forall>i<length ns.
             (scale_offset ns ! i = NaN \<or> scale_offset rs ! i = NaN \<longrightarrow> out ! i = NaN) \<and>
             (\<forall>a b. ns ! i = Fin (real_of_int a) \<and> rs ! i = Fin (real_of_int b) \<and>
                    scale_offset ns ! i \<noteq> NaN \<and> scale_offset rs ! i \<noteq> NaN
                \<longrightarrow> (\<exists>n r v. scale_offset ns ! i = Fin n \<and> scale_offset rs ! i = Fin r \<and>
                          1 < n + r + 1 \<and> out ! i = Fin v))))) \<and>
   (get_var data ''nir'' = Inr ns \<and> get_var data ''red'' = Inr rs \<and>
    get_var data ''blue'' = Inr bs \<and> length rs = length ns \<and> length bs = length ns
    \<longrightarrow> (\<exists>out. calculate_evi data = Inr out \<and> length out = length ns \<and>
          (\<forall>i<length ns.
             scale_offset ns ! i = NaN \<or> scale_offset rs ! i = NaN \<or>
             scale_offset bs ! i = NaN \<longrightarrow> out ! i = NaN)))"
proof (intro conjI impI)
  assume h: "get_var data ''nir'' = Inr ns \<and> get_var data ''red'' = Inr rs \<and>
    length rs = length ns"
  from h calculate_evi2_nth [of data ns rs] obtain out
    where o: "calculate_evi2 data = Inr out" "length out = length ns"
      and e: "\<forall>i<length ns. out ! i =
              fmul (Fin 2.4)
                (fdiv (fsub (scale_offset ns ! i) (scale_offset rs ! i))
                   (fadd (fadd (scale_offset ns ! i) (scale_offset rs ! i)) (Fin 1)))"
    by blast
  have "(scale_offset ns ! i = NaN \<or> scale_offset rs ! i = NaN \<longrightarrow> out ! i = NaN) \<and>
        (\<forall>a b. ns ! i = Fin (real_of_int a) \<and> rs ! i = Fin (real_of_int b) \<and>
               scale_offset ns ! i \<noteq> NaN \<and> scale_offset rs ! i \<noteq> NaN
           \<longrightarrow> (\<exists>n r v. scale_offset ns ! i = Fin n \<and> scale_offset rs ! i = Fin r \<and>
                     1 < n + r + 1 \<and> out ! i = Fin v))"
    if i: "i < length ns" for i
  proof (intro conjI allI impI)
    assume "scale_offset ns ! i = NaN \<or> scale_offset rs ! i = NaN"
    then show "out ! i = NaN" using e i by auto
  next
    fix a b
    assume v: "ns ! i = Fin (real_of_int a) \<and> rs ! i = Fin (real_of_int b) \<and>
               scale_offset ns ! i \<noteq> NaN \<and> scale_offset rs ! i \<noteq> NaN"
    have i': "i < length rs" using i h by simp
    have n: "scale_offset ns ! i
               = (if 0 < real_of_int a then Fin (real_of_int a * 0.0001) else NaN)"
      using i v by (simp add: scale_offset_Fin)
    have r: "scale_offset rs ! i
               = (if 0 < real_of_int b then Fin (real_of_int b * 0.0001) else NaN)"
      using i' v by (simp add: scale_offset_Fin)
    have a: "0 < real_of_int a" using n v by (auto split: if_splits)
    have b: "0 < real_of_int b" using r v by (auto split: if_splits)
    define x where "x = real_of_int a * 0.0001"
    define y where "y = real_of_int b * 0.0001"
    have sn: "scale_offset ns ! i = Fin x" and sr: "scale_offset rs ! i = Fin y"
      using n r a b by (simp_all add: x_def y_def)
    have xy: "0 < x" "0 < y" using a b by (simp_all add: x_def y_def)
    then have d: "1 < x + y + 1" by simp
    then have nz: "x + y + 1 \<noteq> 0" by simp
    have "out ! i = Fin (2.4 * ((x - y) / (x + y + 1)))"
      using e i sn sr evi2_px_Fin [OF nz, of "2.4"] by simp
    with sn sr d show "\<exists>n r v. scale_offset ns ! i = Fin n \<and> scale_offset rs ! i = Fin r \<and>
                     1 < n + r + 1 \<and> out ! i = Fin v"
      by blast
  qed
  with o show "\<exists>out. calculate_evi2 data = Inr out \<and> length out = length ns \<and>
          (\<forall>i<length ns.
             (scale_offset ns ! i = NaN \<or> scale_offset rs ! i = NaN \<longrightarrow> out ! i = NaN) \<and>
             (\<forall>a b. ns ! i = Fin (real_of_int a) \<and> rs ! i = Fin (real_of_int b) \<and>
                    scale_offset ns ! i \<noteq> NaN \<and> scale_offset rs ! i \<noteq> NaN
                \<longrightarrow> (\<exists>n r v. scale_offset ns ! i = Fin n \<and> scale_offset rs ! i = Fin r \<and>
                          1 < n + r + 1 \<and> out ! i = Fin v)))"
    by blast
next
  assume h: "get_var data ''nir'' = Inr ns \<and> get_var data ''red'' = Inr rs \<and>
    get_var data ''blue'' = Inr bs \<and> length rs = length ns \<and> length bs = length ns"
  from h calculate_evi_nth [of data ns rs bs] obtain out
    where o: "calculate_evi data = Inr out" "length out = length ns"
      and e: "\<forall>i<length ns. out ! i =
              fmul (Fin 2.5)
                (fdiv (fsub (scale_offset ns ! i) (scale_offset rs ! i))
                   (fadd
                      (fsub (fadd (scale_offset ns ! i) (fmul (Fin 6) (scale_offset rs ! i)))
                         (fmul (Fin 7.5) (scale_offset bs ! i)))
                      (Fin 1)))"
    by blast
  have "scale_offset ns ! i = NaN \<or> scale_offset rs ! i = NaN \<or>
              scale_offset bs ! i = NaN \<longrightarrow> out ! i = NaN"
    if i: "i < length ns" for i
    using e i by auto
  with o show "\<exists>out. calculate_evi data = Inr out \<and> length out = length ns \<and>
          (\<forall>i<length ns.
             scale_offset ns ! i = NaN \<or> scale_offset rs ! i = NaN \<or>
             scale_offset bs ! i = NaN \<longrightarrow> out ! i = NaN)"
    by blast
qed

theorem calculate_evi_missing_witness:
  "(\<exists>out v. calculate_evi2
            [(''nir'', [Fin 5000, NaN]), (''red'', [Fin 2500, Fin 100]),
             (''blue'', [Fin 4000, Fin 100])] = Inr out \<and> out ! 0 = Fin v \<and> out ! 1 = NaN) \<and>
   (\<exists>out. calculate_evi
            [(''nir'', [Fin 5000, NaN]), (''red'', [Fin 2500, Fin 100]),
             (''blue'', [Fin 4000, Fin 100])] = Inr out \<and> out ! 1 = NaN)"
proof -
  let ?ns = "[Fin 5000, NaN]" and ?rs = "[Fin 2500, Fin 100]" and ?bs = "[Fin 4000, Fin 100]"
  let ?d = "[(''nir'', ?ns), (''red'', ?rs), (''blue'', ?bs)]"
  have g: "get_var ?d ''nir'' = Inr ?ns" "get_var ?d ''red'' = Inr ?rs"
    "get_var ?d ''blue'' = Inr ?bs" "length ?rs = length ?ns" "length ?bs = length ?ns"
    by (simp_all add: get_var_def)
  have s: "scale_offset ?ns ! 1 = NaN" "scale_offset ?ns ! 0 \<noteq> NaN"
    "scale_offset ?rs ! 0 \<noteq> NaN"
    by (simp_all add: scale_offset_def where_fl_def)
  have f: "?ns ! 0 = Fin (real_of_int 5000)" "?rs ! 0 = Fin (real_of_int 2500)" by simp_all
  have i: "(0::nat) < length ?ns" "(1::nat) < length ?ns" by simp_all
  note t = calculate_evi_missing [of ?d ?ns ?rs ?bs]
  from t g obtain out2 where o2: "calculate_evi2 ?d = Inr out2"
    and e2: "\<forall>i<length ?ns.
             (scale_offset ?ns ! i = NaN \<or> scale_offset ?rs ! i = NaN \<longrightarrow> out2 ! i = NaN) \<and>
             (\<forall>a b. ?ns ! i = Fin (real_of_int a) \<and> ?rs ! i = Fin (real_of_int b) \<and>
                    scale_offset ?ns ! i \<noteq> NaN \<and> scale_offset ?rs ! i \<noteq> NaN
                \<longrightarrow> (\<exists>n r v. scale_offset ?ns ! i = Fin n \<and> scale_offset ?rs ! i = Fin r \<and>
                          1 < n + r + 1 \<and> out2 ! i = Fin v))"
    by blast
  from t g obtain out3 where o3: "calculate_evi ?d = Inr out3"
    and e3: "\<forall>i<length ?ns.
             scale_offset ?ns ! i = NaN \<or> scale_offset ?rs ! i = NaN \<or>
             scale_offset ?bs ! i = NaN \<longrightarrow> out3 ! i = NaN"
    by blast
  have a: "out2 ! 1 = NaN" using e2 i(2) s(1) by blast
  have b: "out3 ! 1 = NaN" using e3 i(2) s(1) by blast
  have c: "\<exists>v. out2 ! 0 = Fin v" using e2 i(1) s(2,3) f by blast
  from o2 o3 a b c show ?thesis by blast
qed

section \<open>Properties of the Temporal Aggregator\<close>

lemma fmax_NaN_left: "fmax NaN b = b"
  by (simp add: fmax_def)

lemma fmax_NaN_right: "fmax a NaN = a"
  by (cases a) (simp_all add: fmax_def)

lemma isnan_iff: "isnan x \<longleftrightarrow> x = NaN"
  by (cases x) simp_all

lemma nanmax_foldl: "nanmax xs = foldl fmax NaN xs"
  by (cases xs) (simp_all add: nanmax_def fmax_NaN_left)

lemma foldl_fmax_all_nan: "\<forall>x\<in>set xs. isnan x \<Longrightarrow> foldl fmax a xs = a"
  by (induction xs arbitrary: a) (simp_all add: isnan_iff fmax_NaN_right)

lemma foldl_fmax_single:
  "filter (\<lambda>v. \<not> isnan v) xs = [x] \<Longrightarrow> foldl fmax NaN xs = x"
proof (induction xs)
  case Nil
  then show ?case by simp
next
  case (Cons y ys)
  show ?case
  proof (cases "isnan y")
    case True
    then show ?thesis using Cons by (simp add: isnan_iff fmax_NaN_left)
  next
    case False
    then have "y = x" and "filter (\<lambda>v. \<not> isnan v) ys = []" using Cons.prems by simp_all
    then have "\<forall>v\<in>set ys. isnan v" by (simp add: filter_empty_conv)
    then show ?thesis using \<open>y = x\<close> by (simp add: fmax_NaN_left foldl_fmax_all_nan)
  qed
qed

lemma nanmax_all_nan: "\<forall>x\<in>set xs. isnan x \<Longrightarrow> nanmax xs = NaN"
  by (simp add: nanmax_foldl foldl_fmax_all_nan)

lemma nanmax_single: "filter (\<lambda>v. \<not> isnan v) xs = [x] \<Longrightarrow> nanmax xs = x"
  by (simp add: nanmax_foldl foldl_fmax_single)

lemma mean_single: "\<not> isnan x \<Longrightarrow> mean [x] = x"
  by (cases x) (simp_all add: mean_def sgn_inf_def)

lemma nanmedian_all_nan: "\<forall>x\<in>set xs. isnan x \<Longrightarrow> nanmedian xs = NaN"
  by (simp add: nanmedian_def filter_empty_conv)

lemma nanmedian_single:
  assumes "filter (\<lambda>v. \<not> isnan v) xs = [x]"
  shows "nanmedian xs = x"
proof -
  have "x \<in> set (filter (\<lambda>v. \<not> isnan v) xs)" using assms by simp
  then have "\<not> isnan x" by simp
  then show ?thesis using assms by (simp add: nanmedian_def fsort_def mean_single)
qed

lemma reduce_group_nth: "i < n \<Longrightarrow> reduce_group stat n g ! i = stat (pixel_series i g)"
  by (simp add: reduce_group_def)

lemma resample_reduce_mem:
  "(b, vals) \<in> set (resample_reduce stat start step data) \<Longrightarrow>
     vals = reduce_group stat (npix data) (filter (\<lambda>(t, s). start t = b) data)"
  by (auto simp: resample_reduce_def resample_def)

lemma map_fst_resample_reduce:
  "map fst (resample_reduce stat start step data) = bin_labels start step (map fst data)"
  by (simp add: resample_reduce_def resample_def comp_def)

lemma resample_reduce_nth:
  assumes "k < length (resample_reduce stat start step data)"
  shows "snd (resample_reduce stat start step data ! k)
           = reduce_group stat (npix data)
               (filter (\<lambda>(t, s). start t = fst (resample_reduce stat start step data ! k)) data)"
proof -
  have "resample_reduce stat start step data ! k \<in> set (resample_reduce stat start step data)"
    using assms by simp
  then have "(fst (resample_reduce stat start step data ! k),
              snd (resample_reduce stat start step data ! k))
               \<in> set (resample_reduce stat start step data)"
    by simp
  then show ?thesis by (rule resample_reduce_mem)
qed

lemma reduce_group_length: "length (reduce_group stat n g) = n"
  by (simp add: reduce_group_def)

lemma resample_reduce_empty_and_single:
  assumes "stat = nanmax \<or> stat = nanmedian"
    and "k < length (resample_reduce stat start step data)"
    and "i < npix data"
  shows "length (snd (resample_reduce stat start step data ! k)) = npix data \<and>
         ((\<forall>x\<in>set (pixel_series i
                      (filter (\<lambda>(t, s). start t = fst (resample_reduce stat start step data ! k))
                         data)). isnan x)
            \<longrightarrow> snd (resample_reduce stat start step data ! k) ! i = NaN) \<and>
         (\<forall>x. filter (\<lambda>v. \<not> isnan v)
                (pixel_series i
                   (filter (\<lambda>(t, s). start t = fst (resample_reduce stat start step data ! k))
                      data)) = [x]
            \<longrightarrow> snd (resample_reduce stat start step data ! k) ! i = x)"
proof -
  let ?g = "filter (\<lambda>(t, s). start t = fst (resample_reduce stat start step data ! k)) data"
  have v: "snd (resample_reduce stat start step data ! k) = reduce_group stat (npix data) ?g"
    using assms(2) by (rule resample_reduce_nth)
  have n: "snd (resample_reduce stat start step data ! k) ! i = stat (pixel_series i ?g)"
    unfolding v using assms(3) by (rule reduce_group_nth)
  have l: "length (snd (resample_reduce stat start step data ! k)) = npix data"
    unfolding v by (rule reduce_group_length)
  from assms(1) show ?thesis
  proof
    assume "stat = nanmax"
    then show ?thesis using n l by (simp add: nanmax_all_nan nanmax_single)
  next
    assume "stat = nanmedian"
    then show ?thesis using n l by (simp add: nanmedian_all_nan nanmedian_single)
  qed
qed

text \<open>
  Claim C5: \<open>max_values\<close> and \<open>median\<close> have one entry per month from the first to the
  last month of the data, each with one value per pixel; for every month and every
  pixel, when the acquisitions of that month hold no valid observation of the pixel (all
  NaN, or no acquisition at all) the aggregate is NaN, and when they hold exactly one
  valid observation the aggregate is that observation.
\<close>

theorem aggregate_empty_and_single:
  "map fst (max_values masked) = bin_labels month_start 1 (map fst masked) \<and>
   map fst (median masked) = bin_labels month_start 1 (map fst masked) \<and>
   (\<forall>k<length (max_values masked). \<forall>i<npix masked.
      length (snd (max_values masked ! k)) = npix masked \<and>
      ((\<forall>x\<in>set (pixel_series i
                   (filter (\<lambda>(t, s). month_start t = fst (max_values masked ! k)) masked)).
          isnan x)
         \<longrightarrow> snd (max_values masked ! k) ! i = NaN) \<and>
      (\<forall>x. filter (\<lambda>v. \<not> isnan v)
             (pixel_series i
                (filter (\<lambda>(t, s). month_start t = fst (max_values masked ! k)) masked)) = [x]
         \<longrightarrow> snd (max_values masked ! k) ! i = x)) \<and>
   (\<forall>k<length (median masked). \<forall>i<npix masked.
      length (snd (median masked ! k)) = npix masked \<and>
      ((\<forall>x\<in>set (pixel_series i
                   (filter (\<lambda>(t, s). month_start t = fst (median masked ! k)) masked)).
          isnan x)
         \<longrightarrow> snd (median masked ! k) ! i = NaN) \<and>
      (\<forall>x. filter (\<lambda>v. \<not> isnan v)
             (pixel_series i
                (filter (\<lambda>(t, s). month_start t = fst (median masked ! k)) masked)) = [x]
         \<longrightarrow> snd (median masked ! k) ! i = x))"
  unfolding max_values_def median_def
  by (intro conjI allI impI map_fst_resample_reduce resample_reduce_empty_and_single) simp_all

theorem aggregate_empty_and_single_witness:
  "map fst (max_values [(24241, [Fin 0.3, NaN]), (24241, [NaN, Fin 0.7]), (24243, [NaN, NaN])])
     = [24241, 24242, 24243] \<and>
   snd (max_values [(24241, [Fin 0.3, NaN]), (24241, [NaN, Fin 0.7]), (24243, [NaN, NaN])] ! 0) ! 0
     = Fin 0.3 \<and>
   snd (max_values [(24241, [Fin 0.3, NaN]), (24241, [NaN, Fin 0.7]), (24243, [NaN, NaN])] ! 0) ! 1
     = Fin 0.7 \<and>
   snd (max_values [(24241, [Fin 0.3, NaN]), (24241, [NaN, Fin 0.7]), (24243, [NaN, NaN])] ! 1) ! 0
     = NaN \<and>
   snd (max_values [(24241, [Fin 0.3, NaN]), (24241, [NaN, Fin 0.7]), (24243, [NaN, NaN])] ! 2) ! 1
     = NaN \<and>
   map fst (median [(24241, [Fin 0.3, NaN]), (24241, [NaN, Fin 0.7]), (24243, [NaN, NaN])])
     = [24241, 24242, 24243] \<and>
   snd (median [(24241, [Fin 0.3, NaN]), (24241, [NaN, Fin 0.7]), (24243, [NaN, NaN])] ! 0) ! 1
     = Fin 0.7 \<and>
   snd (median [(24241, [Fin 0.3, NaN]), (24241, [NaN, Fin 0.7]), (24243, [NaN, NaN])] ! 1) ! 1
     = NaN"
proof -
  let ?d = "[(24241::int, [Fin 0.3, NaN]), (24241, [NaN, Fin 0.7]), (24243, [NaN, NaN])]"
  note t = aggregate_empty_and_single [of ?d]
  have labels: "bin_labels month_start 1 (map fst ?d) = [24241, 24242, 24243]"
    by (simp add: bin_labels_def month_start_def upt_conv_Cons)
  have lm: "map fst (max_values ?d) = [24241, 24242, 24243]"
    and ld: "map fst (median ?d) = [24241, 24242, 24243]"
    using t labels by simp_all
  have len: "length (max_values ?d) = 3" "length (median ?d) = 3"
    using lm ld by (metis length_map list.size(3,4) numeral_3_eq_3 One_nat_def
        Suc_eq_plus1)+
  have fm: "fst (max_values ?d ! 0) = 24241" "fst (max_values ?d ! 1) = 24242"
    "fst (max_values ?d ! 2) = 24243"
    using lm len(1) nth_map [of 0 "max_values ?d" fst] nth_map [of 1 "max_values ?d" fst]
      nth_map [of 2 "max_values ?d" fst] by simp_all
  have fd: "fst (median ?d ! 0) = 24241" "fst (median ?d ! 1) = 24242"
    using ld len(2) nth_map [of 0 "median ?d" fst] nth_map [of 1 "median ?d" fst]
    by simp_all
  have np: "npix ?d = 2" by (simp add: npix_def)
  have s00: "filter (\<lambda>v. \<not> isnan v)
               (pixel_series 0 (filter (\<lambda>(t, s). month_start t = 24241) ?d)) = [Fin 0.3]"
    and s01: "filter (\<lambda>v. \<not> isnan v)
               (pixel_series 1 (filter (\<lambda>(t, s). month_start t = 24241) ?d)) = [Fin 0.7]"
    and s10: "\<forall>x\<in>set (pixel_series 0 (filter (\<lambda>(t, s). month_start t = 24242) ?d)). isnan x"
    and s11: "\<forall>x\<in>set (pixel_series 1 (filter (\<lambda>(t, s). month_start t = 24242) ?d)). isnan x"
    and s21: "\<forall>x\<in>set (pixel_series 1 (filter (\<lambda>(t, s). month_start t = 24243) ?d)). isnan x"
    by (simp_all add: pixel_series_def month_start_def)
  have tm: "(\<forall>x\<in>set (pixel_series i
                   (filter (\<lambda>(t, s). month_start t = fst (max_values ?d ! k)) ?d)). isnan x)
              \<longrightarrow> snd (max_values ?d ! k) ! i = NaN"
    "\<forall>x. filter (\<lambda>v. \<not> isnan v)
             (pixel_series i
                (filter (\<lambda>(t, s). month_start t = fst (max_values ?d ! k)) ?d)) = [x]
         \<longrightarrow> snd (max_values ?d ! k) ! i = x"
    if "k < 3" "i < 2" for k i
    using t that len(1) np by simp_all
  have td: "(\<forall>x\<in>set (pixel_series i
                   (filter (\<lambda>(t, s). month_start t = fst (median ?d ! k)) ?d)). isnan x)
              \<longrightarrow> snd (median ?d ! k) ! i = NaN"
    "\<forall>x. filter (\<lambda>v. \<not> isnan v)
             (pixel_series i
                (filter (\<lambda>(t, s). month_start t = fst (median ?d ! k)) ?d)) = [x]
         \<longrightarrow> snd (median ?d ! k) ! i = x"
    if "k < 3" "i < 2" for k i
    using t that len(2) np by simp_all
  have a: "snd (max_values ?d ! 0) ! 0 = Fin 0.3"
    using tm(2) [of 0 0] s00 unfolding fm by simp
  have b: "snd (max_values ?d ! 0) ! 1 = Fin 0.7"
    using tm(2) [of 0 1] s01 unfolding fm by simp
  have c: "snd (max_values ?d ! 1) ! 0 = NaN"
    using tm(1) [of 1 0] s10 unfolding fm by simp
  have d: "snd (max_values ?d ! 2) ! 1 = NaN"
    using tm(1) [of 2 1] s21 unfolding fm by simp
  have e: "snd (median ?d ! 0) ! 1 = Fin 0.7"
    using td(2) [of 0 1] s01 unfolding fd by simp
  have f: "snd (median ?d ! 1) ! 1 = NaN"
    using td(1) [of 1 1] s11 unfolding fd by simp
  from lm ld a b c d e f show ?thesis by blast
qed

lemma foldl_fadd_valid:
  "foldl fadd (Fin acc)
     (map (\<lambda>x. if isnan x then Fin 0 else x) (map (\<lambda>p. case p of None \<Rightarrow> NaN | Some a \<Rightarrow> Fin a) ps))
   = Fin (acc + sum_list (map the (filter (\<lambda>p. p \<noteq> None) ps)))"
  by (induction ps arbitrary: acc) (auto simp: add.assoc)

lemma count_valid:
  "length (filter (\<lambda>x. \<not> isnan x) (map (\<lambda>p. case p of None \<Rightarrow> NaN | Some a \<Rightarrow> Fin a) ps))
   = length (filter (\<lambda>p. p \<noteq> None) ps)"
  by (induction ps) (auto split: option.splits)

lemma nanmean_valid:
  "nanmean (map (\<lambda>p. case p of None \<Rightarrow> NaN | Some a \<Rightarrow> Fin a) ps)
   = (if filter (\<lambda>p. p \<noteq> None) ps = [] then NaN
      else Fin (sum_list (map the (filter (\<lambda>p. p \<noteq> None) ps))
                / real (length (filter (\<lambda>p. p \<noteq> None) ps))))"
proof -
  have "foldl fadd (Fin 0)
     (map (\<lambda>x. if isnan x then Fin 0 else x) (map (\<lambda>p. case p of None \<Rightarrow> NaN | Some a \<Rightarrow> Fin a) ps))
   = Fin (sum_list (map the (filter (\<lambda>p. p \<noteq> None) ps)))"
    using foldl_fadd_valid [of 0 ps] by simp
  then show ?thesis
    unfolding nanmean_def Let_def count_valid by simp
qed

lemma foldl_fadd_ones:
  "\<forall>v\<in>set xs. \<not> isnan v \<longrightarrow> v = Fin 1 \<Longrightarrow>
     foldl fadd (Fin acc) (map (\<lambda>x. if isnan x then Fin 0 else x) xs)
       = Fin (acc + real (length (filter (\<lambda>x. \<not> isnan x) xs)))"
  by (induction xs arbitrary: acc) (auto simp: add.assoc)

lemma nanmean_ones:
  assumes "\<forall>v\<in>set xs. \<not> isnan v \<longrightarrow> v = Fin 1"
    and "filter (\<lambda>x. \<not> isnan x) xs \<noteq> []"
  shows "nanmean xs = Fin 1"
proof -
  have "foldl fadd (Fin 0) (map (\<lambda>x. if isnan x then Fin 0 else x) xs)
          = Fin (real (length (filter (\<lambda>x. \<not> isnan x) xs)))"
    using foldl_fadd_ones [OF assms(1), of 0] by simp
  then show ?thesis using assms(2) by (simp add: nanmean_def Let_def)
qed

lemma area_mean_nth:
  "k < length x \<Longrightarrow> area_mean x ! k = (fst (x ! k), nanmean (snd (x ! k)))"
  by (simp add: area_mean_def case_prod_beta)

text \<open>
  Claim C7: the area summary has one entry per period, with the period's label; over
  pixels that are numbers or NaN it is the arithmetic mean of the numbers (NaN pixels
  count neither in the sum nor in the divisor), and NaN when every pixel is NaN; a
  period whose pixels are half NaN and otherwise 1 summarises to 1.
\<close>

theorem area_mean_ignores_missing:
  "length (area_mean x) = length x \<and>
   (\<forall>k<length x.
      fst (area_mean x ! k) = fst (x ! k) \<and>
      (\<forall>ps. snd (x ! k) = map (\<lambda>p. case p of None \<Rightarrow> NaN | Some a \<Rightarrow> Fin a) ps \<longrightarrow>
         snd (area_mean x ! k)
           = (if filter (\<lambda>p. p \<noteq> None) ps = [] then NaN
              else Fin (sum_list (map the (filter (\<lambda>p. p \<noteq> None) ps))
                        / real (length (filter (\<lambda>p. p \<noteq> None) ps))))) \<and>
      (snd (x ! k) \<noteq> [] \<and>
       2 * length (filter isnan (snd (x ! k))) = length (snd (x ! k)) \<and>
       (\<forall>v\<in>set (snd (x ! k)). \<not> isnan v \<longrightarrow> v = Fin 1)
         \<longrightarrow> snd (area_mean x ! k) = Fin 1))"
proof (intro conjI allI impI)
  show "length (area_mean x) = length x" by (simp add: area_mean_def)
next
  fix k assume k: "k < length x"
  then show "fst (area_mean x ! k) = fst (x ! k)" by (simp add: area_mean_nth)
next
  fix k ps
  assume k: "k < length x"
    and p: "snd (x ! k) = map (\<lambda>p. case p of None \<Rightarrow> NaN | Some a \<Rightarrow> Fin a) ps"
  show "snd (area_mean x ! k)
           = (if filter (\<lambda>p. p \<noteq> None) ps = [] then NaN
              else Fin (sum_list (map the (filter (\<lambda>p. p \<noteq> None) ps))
                        / real (length (filter (\<lambda>p. p \<noteq> None) ps))))"
    using k by (simp only: area_mean_nth snd_conv p nanmean_valid)
next
  fix k
  assume k: "k < length x"
    and h: "snd (x ! k) \<noteq> [] \<and>
       2 * length (filter isnan (snd (x ! k))) = length (snd (x ! k)) \<and>
       (\<forall>v\<in>set (snd (x ! k)). \<not> isnan v \<longrightarrow> v = Fin 1)"
  let ?xs = "snd (x ! k)"
  have "length (filter isnan ?xs) + length (filter (\<lambda>v. \<not> isnan v) ?xs) = length ?xs"
    by (rule sum_length_filter_compl)
  moreover have "0 < length ?xs" using h by simp
  ultimately have "0 < length (filter (\<lambda>v. \<not> isnan v) ?xs)" using h by linarith
  then have "filter (\<lambda>v. \<not> isnan v) ?xs \<noteq> []" by simp
  then have "nanmean ?xs = Fin 1" using h by (simp add: nanmean_ones)
  then show "snd (area_mean x ! k) = Fin 1" using k by (simp add: area_mean_nth)
qed

theorem area_mean_ignores_missing_witness:
  "length (area_mean [(24241, [Fin 1, NaN, NaN, Fin 1]), (24242, [NaN, NaN, NaN, NaN]),
              (24243, [Fin 0.2, NaN, Fin 0.4, NaN])]) = 3 \<and>
   snd (area_mean [(24241, [Fin 1, NaN, NaN, Fin 1]), (24242, [NaN, NaN, NaN, NaN]),
              (24243, [Fin 0.2, NaN, Fin 0.4, NaN])] ! 0) = Fin 1 \<and>
   snd (area_mean [(24241, [Fin 1, NaN, NaN, Fin 1]), (24242, [NaN, NaN, NaN, NaN]),
              (24243, [Fin 0.2, NaN, Fin 0.4, NaN])] ! 1) = NaN \<and>
   snd (area_mean [(24241, [Fin 1, NaN, NaN, Fin 1]), (24242, [NaN, NaN, NaN, NaN]),
              (24243, [Fin 0.2, NaN, Fin 0.4, NaN])] ! 2) = Fin 0.3"
proof -
  let ?x = "[(24241::int, [Fin 1, NaN, NaN, Fin 1]), (24242, [NaN, NaN, NaN, NaN]),
              (24243, [Fin 0.2, NaN, Fin 0.4, NaN])]"
  note t = area_mean_ignores_missing [of ?x]
  have l: "length (area_mean ?x) = 3" using t by simp
  have t1: "snd (area_mean ?x ! k) = Fin 1"
    if "k < length ?x" and "snd (?x ! k) \<noteq> [] \<and>
       2 * length (filter isnan (snd (?x ! k))) = length (snd (?x ! k)) \<and>
       (\<forall>v\<in>set (snd (?x ! k)). \<not> isnan v \<longrightarrow> v = Fin 1)" for k
    using t that by blast
  have t2: "snd (area_mean ?x ! k)
           = (if filter (\<lambda>p. p \<noteq> None) ps = [] then NaN
              else Fin (sum_list (map the (filter (\<lambda>p. p \<noteq> None) ps))
                        / real (length (filter (\<lambda>p. p \<noteq> None) ps))))"
    if "k < length ?x"
      and "snd (?x ! k) = map (\<lambda>p. case p of None \<Rightarrow> NaN | Some a \<Rightarrow> Fin a) ps" for k ps
    using t that by blast
  have a: "snd (area_mean ?x ! 0) = Fin 1" by (rule t1) simp_all
  have b: "snd (area_mean ?x ! 1) = NaN"
    using t2 [of 1 "[None, None, None, None]"] by (simp del: not_None_eq)
  have c: "snd (area_mean ?x ! 2) = Fin 0.3"
    using t2 [of 2 "[Some 0.2, None, Some 0.4, None]"] by (simp del: not_None_eq)
  from l a b c show ?thesis by blast
qed

lemma month_of_eq:
  assumes "1 \<le> a" "a \<le> 12"
  shows "(month_of t = a) = ((t - (int a - 1)) mod 12 = 0)"
proof -
  have "0 \<le> t mod 12" "t mod 12 < 12" by simp_all
  then show ?thesis using assms unfolding month_of_def by presburger
qed

lemma quarter_start_mod: "(quarter_start a t - (int a - 1)) mod 3 = 0"
  unfolding quarter_start_def by presburger

lemma quarter_label_cases:
  fixes b c :: int
  assumes "(b - c) mod 3 = 0"
  shows "(b - c) mod 12 = 0 \<or> (b - c) mod 12 = 3 \<or> (b - c) mod 12 = 6 \<or> (b - c) mod 12 = 9"
  using assms by presburger

lemma four_quarters_one:
  fixes b c :: int
  assumes "(b - c) mod 3 = 0"
  shows "length (filter (\<lambda>(t, s). (t - c) mod 12 = 0)
           [(b, s0), (b + 3, s1), (b + 6, s2), (b + 9, s3)]) = 1"
proof -
  have e: "((b + 3 - c) mod 12 = 0) = ((b - c) mod 12 = 9)"
    "((b + 6 - c) mod 12 = 0) = ((b - c) mod 12 = 6)"
    "((b + 9 - c) mod 12 = 0) = ((b - c) mod 12 = 3)"
    by presburger+
  from quarter_label_cases [OF assms] show ?thesis
    by (auto simp: e)
qed

lemma bin_labels_mem:
  assumes "b \<in> set (bin_labels start step stamps)"
  shows "\<exists>t k. b = start t + step * int k"
proof (cases stamps)
  case Nil
  then show ?thesis using assms by (simp add: bin_labels_def)
next
  case (Cons t ts)
  then have "b \<in> (\<lambda>k. start (fold min ts t) + step * int k) ` set [0 ..<
      nat ((start (fold max ts t) - start (fold min ts t)) div step) + 1]"
    using assms by (simp add: bin_labels_def Let_def del: upt_Suc set_upt)
  then show ?thesis by blast
qed

lemma resample_reduce_label:
  assumes "(b, vals) \<in> set (resample_reduce stat (quarter_start a) 3 data)"
  shows "(b - (int a - 1)) mod 3 = 0"
proof -
  have "b \<in> set (bin_labels (quarter_start a) 3 (map fst data))"
    using assms by (auto simp: resample_reduce_def resample_def)
  then obtain t k where b: "b = quarter_start a t + 3 * int k"
    using bin_labels_mem by blast
  have "(quarter_start a t - (int a - 1)) mod 3 = 0" by (rule quarter_start_mod)
  then show ?thesis unfolding b by presburger
qed

lemma feb_label_months:
  assumes "(b - 1) mod 3 = (0::int)"
  shows "month_of b \<in> {2, 5, 8, 11}"
proof -
  have "b mod 12 = 1 \<or> b mod 12 = 4 \<or> b mod 12 = 7 \<or> b mod 12 = 10"
    using assms by presburger
  then show ?thesis by (auto simp: month_of_def)
qed

lemma dec_label_months:
  assumes "(b - 11) mod 3 = (0::int)"
  shows "month_of b \<in> {12, 3, 6, 9}"
proof -
  have "b mod 12 = 11 \<or> b mod 12 = 2 \<or> b mod 12 = 5 \<or> b mod 12 = 8"
    using assms by presburger
  then show ?thesis by (auto simp: month_of_def)
qed

lemma sel_month_four:
  assumes "1 \<le> a" "a \<le> 12" "(b - (int a - 1)) mod 3 = 0"
  shows "length (sel_month a [(b, s0), (b + 3, s1), (b + 6, s2), (b + 9, s3)]) = 1"
proof -
  have "sel_month a [(b, s0), (b + 3, s1), (b + 6, s2), (b + 9, s3)]
          = filter (\<lambda>(t, s). (t - (int a - 1)) mod 12 = 0)
              [(b, s0), (b + 3, s1), (b + 6, s2), (b + 9, s3)]"
    unfolding sel_month_def by (simp only: month_of_eq [OF assms(1,2)])
  then show ?thesis by (simp only: four_quarters_one [OF assms(3)])
qed

lemma sel_month_feb_first:
  assumes "month_of b = 2"
  shows "sel_month 2 [(b, s0), (b + 3, s1), (b + 6, s2), (b + 9, s3)] = [(b, s0)]"
proof -
  have "0 \<le> b mod 12" by simp
  with assms have m: "b mod 12 = 1" unfolding month_of_def by linarith
  then have "(b + 3) mod 12 = 4" "(b + 6) mod 12 = 7" "(b + 9) mod 12 = 10"
    by presburger+
  then show ?thesis using m by (simp add: sel_month_def month_of_def)
qed

text \<open>
  Claim C6: the selection after an anchored-quarter resampling retains exactly the
  groups whose start month is the anchor month (February after \<^verbatim>\<open>QS-FEB\<close>,
  December after \<^verbatim>\<open>QS-DEC\<close>); the groups of the resampling start in the months
  2, 5, 8, 11 (resp. 12, 3, 6, 9); of four consecutive quarter groups starting in
  February, May, August and November exactly the first is retained, and of any four
  consecutive quarter groups exactly one is retained, its start month being the anchor.
\<close>

theorem anchored_quarter_selection:
  "(\<forall>t s. ((t, s) \<in> set (feb_quarters_max data))
            = ((t, s) \<in> set (resample_reduce nanmax (quarter_start 2) 3 data) \<and> month_of t = 2)) \<and>
   (\<forall>t s. ((t, s) \<in> set (dec_quarters_median data))
            = ((t, s) \<in> set (resample_reduce nanmedian (quarter_start 12) 3 data) \<and>
               month_of t = 12)) \<and>
   (\<forall>t s. (t, s) \<in> set (resample_reduce nanmax (quarter_start 2) 3 data)
            \<longrightarrow> month_of t \<in> {2, 5, 8, 11}) \<and>
   (\<forall>t s. (t, s) \<in> set (resample_reduce nanmedian (quarter_start 12) 3 data)
            \<longrightarrow> month_of t \<in> {12, 3, 6, 9}) \<and>
   (month_of b = 2 \<longrightarrow>
      sel_month 2 [(b, s0), (b + 3, s1), (b + 6, s2), (b + 9, s3)] = [(b, s0)]) \<and>
   (1 \<le> a \<and> a \<le> 12 \<and> (b - (int a - 1)) mod 3 = 0 \<longrightarrow>
      length (sel_month a [(b, s0), (b + 3, s1), (b + 6, s2), (b + 9, s3)]) = 1 \<and>
      (\<forall>(t, s)\<in>set (sel_month a [(b, s0), (b + 3, s1), (b + 6, s2), (b + 9, s3)]).
         month_of t = a))"
proof (intro conjI allI impI)
  fix t s
  show "((t, s) \<in> set (feb_quarters_max data))
            = ((t, s) \<in> set (resample_reduce nanmax (quarter_start 2) 3 data) \<and> month_of t = 2)"
    by (simp add: feb_quarters_max_def sel_month_def)
  show "((t, s) \<in> set (dec_quarters_median data))
            = ((t, s) \<in> set (resample_reduce nanmedian (quarter_start 12) 3 data) \<and>
               month_of t = 12)"
    by (simp add: dec_quarters_median_def sel_month_def)
  show "month_of t \<in> {2, 5, 8, 11}"
    if "(t, s) \<in> set (resample_reduce nanmax (quarter_start 2) 3 data)"
    using resample_reduce_label [OF that] by (intro feb_label_months) simp
  show "month_of t \<in> {12, 3, 6, 9}"
    if "(t, s) \<in> set (resample_reduce nanmedian (quarter_start 12) 3 data)"
    using resample_reduce_label [OF that] by (intro dec_label_months) simp
next
  assume "month_of b = 2"
  then show "sel_month 2 [(b, s0), (b + 3, s1), (b + 6, s2), (b + 9, s3)] = [(b, s0)]"
    by (rule sel_month_feb_first)
next
  assume h: "1 \<le> a \<and> a \<le> 12 \<and> (b - (int a - 1)) mod 3 = 0"
  then show "length (sel_month a [(b, s0), (b + 3, s1), (b + 6, s2), (b + 9, s3)]) = 1"
    by (simp add: sel_month_four)
  show "\<forall>(t, s)\<in>set (sel_month a [(b, s0), (b + 3, s1), (b + 6, s2), (b + 9, s3)]).
         month_of t = a"
    by (auto simp: sel_month_def)
qed

lemma ex_quarters_eval:
  "resample_reduce stat (quarter_start 2) 3
     [(24241, [Fin 0.3]), (24242, [Fin 0.5]), (24253, [Fin 0.4])]
   = [(24241, [stat [Fin 0.3, Fin 0.5]]), (24244, [stat []]), (24247, [stat []]),
      (24250, [stat []]), (24253, [stat [Fin 0.4]])]"
  by (simp add: resample_reduce_def resample_def bin_labels_def quarter_start_def npix_def
      reduce_group_def pixel_series_def upt_conv_Cons)

theorem anchored_quarter_selection_witness:
  "(24241, [nanmax [Fin 0.3, Fin 0.5]])
     \<in> set (feb_quarters_max [(24241, [Fin 0.3]), (24242, [Fin 0.5]), (24253, [Fin 0.4])]) \<and>
   (24244, [nanmax []])
     \<notin> set (feb_quarters_max [(24241, [Fin 0.3]), (24242, [Fin 0.5]), (24253, [Fin 0.4])]) \<and>
   sel_month 2 [(24241, [Fin 0.5]), (24244, [NaN]), (24247, [NaN]), (24250, [NaN])]
     = [(24241, [Fin 0.5])] \<and>
   length (sel_month 12 [(24242, [NaN]), (24245, [NaN]), (24248, [NaN]), (24251, [Fin 0.5])]) = 1"
proof -
  let ?d = "[(24241::int, [Fin 0.3]), (24242, [Fin 0.5]), (24253, [Fin 0.4])]"
  note t = anchored_quarter_selection
    [where data = ?d and b = 24241 and a = 2 and ?s0.0 = "[Fin 0.5]" and ?s1.0 = "[NaN]"
       and ?s2.0 = "[NaN]" and ?s3.0 = "[NaN]"]
  note u = anchored_quarter_selection
    [where data = ?d and b = 24242 and a = 12 and ?s0.0 = "[NaN]" and ?s1.0 = "[NaN]"
       and ?s2.0 = "[NaN]" and ?s3.0 = "[Fin 0.5]"]
  have m1: "(24241, [nanmax [Fin 0.3, Fin 0.5]])
              \<in> set (resample_reduce nanmax (quarter_start 2) 3 ?d)"
    by (subst ex_quarters_eval) simp
  have m2: "month_of 24241 = 2" "month_of 24244 \<noteq> 2" by (simp_all add: month_of_def)
  have a: "(24241, [nanmax [Fin 0.3, Fin 0.5]]) \<in> set (feb_quarters_max ?d)"
    using t m1 m2(1) by blast
  have b: "(24244, [nanmax []]) \<notin> set (feb_quarters_max ?d)"
    using t m2(2) by blast
  have c: "sel_month 2 [(24241, [Fin 0.5]), (24244, [NaN]), (24247, [NaN]), (24250, [NaN])]
     = [(24241, [Fin 0.5])]"
    using t m2(1) by simp
  have "(1::nat) \<le> 12 \<and> (12::nat) \<le> 12 \<and> ((24242::int) - (int 12 - 1)) mod 3 = 0" by simp
  then have d: "length (sel_month 12
                   [(24242, [NaN]), (24245, [NaN]), (24248, [NaN]), (24251, [Fin 0.5])]) = 1"
    using u by simp
  from a b c d show ?thesis by blast
qed

end
